theory Spec2Isabelle
  imports Complex_Main "HOL-Library.Word"
begin

section \<open>HoloCubic firmware: gesture input, the main loop and brightness control\<close>

text \<open>
  A shallow embedding of the parts of the HoloCubic firmware that turn the readings of
  the MPU6050 into encoder events for LVGL (\<open>IMU::update\<close>, \<open>encoder_read\<close>), that
  wait for the sensor (\<open>IMU::init\<close>), that run on every iteration (\<open>loop\<close>), that read a
  file from the SD card (\<open>SdCard::readBinFromSd\<close>) and that set the
  brightness of the backlight and of the LEDs (\<open>Display::setBackLight\<close>,
  \<open>Pixel::setBrightness\<close>, \<open>Pixel::setRGB\<close>).
\<close>

subsection \<open>The encoder globals and the fields of the IMU object\<close>

text \<open>
  \<open>lv_indev_state_t\<close> is LVGL's enumeration; the firmware uses its two values
  \<open>LV_INDEV_STATE_REL\<close> and \<open>LV_INDEV_STATE_PR\<close>.
\<close>

datatype lv_indev_state_t = LV_INDEV_STATE_REL | LV_INDEV_STATE_PR

text \<open>
  One record holds what \<open>IMU::update\<close> and \<open>encoder_read\<close> read and write: the two
  globals \<open>encoder_diff\<close> and \<open>encoder_state\<close>, and the fields of the object \<open>mpu\<close>.
  The global \<open>encoder_diff\<close> is declared \<open>int16_t\<close> in the IMU unit and \<open>int32_t\<close> in
  the input-port unit, so its width is the type parameter \<open>'w\<close>: every statement below
  holds at both widths. The six sample fields are \<open>int16_t\<close> (the getters return them as
  such). The class declaration is in \<open>imu.h\<close>: \<open>flag\<close> is only ever tested for being
  non-zero and assigned 0 or 1, so it is an \<open>int\<close>; \<open>last_update_time\<close> is subtracted
  from the \<open>unsigned long\<close> result of \<open>millis()\<close>, which makes the subtraction and the
  comparison with the interval unsigned 32-bit arithmetic whatever its declared type.
\<close>

record (overloaded) ('w) state =
  encoder_diff :: "'w word"
  encoder_state :: lv_indev_state_t
  ax :: "16 word"
  ay :: "16 word"
  az :: "16 word"
  gx :: "16 word"
  gy :: "16 word"
  gz :: "16 word"
  flag :: int
  last_update_time :: "32 word"

text \<open>
  What one call of \<open>IMU::update\<close> takes from the outside: the six values that
  \<open>getMotion6\<close> stores, and the two results of \<open>millis()\<close>, the one compared at the gate
  and the one stored as the time stamp.
\<close>

record tick =
  s_ax :: "16 word"
  s_ay :: "16 word"
  s_az :: "16 word"
  s_gx :: "16 word"
  s_gy :: "16 word"
  s_gz :: "16 word"
  millis_gate :: "32 word"
  millis_stamp :: "32 word"

subsection \<open>\<open>IMU::update\<close>\<close>

text \<open>\<open>imu.getMotion6(&ax, &ay, &az, &gx, &gy, &gz)\<close>: the six fields are overwritten.\<close>

definition getMotion6 :: "tick \<Rightarrow> 'w state \<Rightarrow> 'w state" where
  "getMotion6 t s =
     s\<lparr>ax := s_ax t, ay := s_ay t, az := s_az t, gx := s_gx t, gy := s_gy t, gz := s_gz t\<rparr>"

text \<open>
  The gate \<open>millis() - last_update_time > interval\<close>. The \<open>int\<close> interval is converted to
  \<open>unsigned long\<close> for the comparison; the parameter is that converted value.
\<close>

definition gate :: "32 word \<Rightarrow> tick \<Rightarrow> 'w state \<Rightarrow> bool" where
  "gate interval t s \<longleftrightarrow> millis_gate t - last_update_time s > interval"

text \<open>
  The body of \<open>IMU::update\<close>: the sensor is read first, outside the gate; inside it the
  chain of three branches on \<open>ay\<close> and \<open>flag\<close>, then the test of \<open>ax\<close>, then the time
  stamp.
\<close>

definition update :: "32 word \<Rightarrow> tick \<Rightarrow> ('w::len) state \<Rightarrow> 'w state" where
  "update interval t s0 =
     (let s = getMotion6 t s0 in
      if millis_gate t - last_update_time s > interval then
        (let s1 =
               (if sint (ay s) > 3000 \<and> flag s \<noteq> 0 then
                  s\<lparr>encoder_diff := encoder_diff s - 1, flag := 0\<rparr>
                else if sint (ay s) < - 3000 \<and> flag s \<noteq> 0 then
                  s\<lparr>encoder_diff := encoder_diff s + 1, flag := 0\<rparr>
                else
                  s\<lparr>flag := 1\<rparr>);
             s2 =
               (if sint (ax s1) > 10000 then s1\<lparr>encoder_state := LV_INDEV_STATE_PR\<rparr>
                else s1\<lparr>encoder_state := LV_INDEV_STATE_REL\<rparr>)
         in s2\<lparr>last_update_time := millis_stamp t\<rparr>)
      else s)"

text \<open>A run of calls of \<open>update\<close>, one per element of the list, as \<open>loop\<close> makes them.\<close>

fun run :: "32 word \<Rightarrow> tick list \<Rightarrow> ('w::len) state \<Rightarrow> 'w state" where
  "run interval [] s = s"
| "run interval (t # ts) s = run interval ts (update interval t s)"

text \<open>Every call of the run passes the gate, in the state in which it is made.\<close>

fun all_pass :: "32 word \<Rightarrow> tick list \<Rightarrow> ('w::len) state \<Rightarrow> bool" where
  "all_pass interval [] s \<longleftrightarrow> True"
| "all_pass interval (t # ts) s \<longleftrightarrow>
     gate interval t s \<and> all_pass interval ts (update interval t s)"

text \<open>
  What the reader of \<open>encoder_diff\<close> can see of each call: the change of \<open>encoder_diff\<close>
  that the call made (\<open>- 1\<close> for one direction, \<open>1\<close> for the other, \<open>0\<close> for no event).
\<close>

fun deltas :: "32 word \<Rightarrow> tick list \<Rightarrow> ('w::len) state \<Rightarrow> 'w word list" where
  "deltas interval [] s = []"
| "deltas interval (t # ts) s =
     (encoder_diff (update interval t s) - encoder_diff s) # deltas interval ts (update interval t s)"

subsection \<open>\<open>encoder_read\<close>\<close>

text \<open>
  The two fields of \<open>lv_indev_data_t\<close> that \<open>encoder_read\<close> assigns. The structure is
  LVGL's, which declares \<open>enc_diff\<close> as \<open>int16_t\<close>.
\<close>

record lv_indev_data_t =
  enc_diff :: "16 word"
  indev_state :: lv_indev_state_t

text \<open>
  \<open>encoder_read\<close> fills the data, clears \<open>encoder_diff\<close> and returns \<open>false\<close>. The
  result is the filled data, the returned flag and the new state. The assignment
  \<open>data->enc_diff = encoder_diff\<close> converts from the type of \<open>encoder_diff\<close>, which is
  \<open>int32_t\<close> in the unit of \<open>encoder_read\<close>, to \<open>int16_t\<close>: a value that fits is kept,
  of any other the low 16 bits are. That is \<open>scast\<close>.
\<close>

definition encoder_read :: "lv_indev_data_t \<Rightarrow> ('w::len) state \<Rightarrow> (lv_indev_data_t \<times> bool) \<times> 'w state" where
  "encoder_read d s =
     (let d1 = d\<lparr>enc_diff := scast (encoder_diff s)\<rparr>;
          d2 = d1\<lparr>indev_state := encoder_state s\<rparr>;
          s' = s\<lparr>encoder_diff := 0\<rparr>
      in ((d2, False), s'))"

text \<open>The data before a read.\<close>

definition data0 :: lv_indev_data_t where
  "data0 = \<lparr>enc_diff = 0, indev_state = LV_INDEV_STATE_REL\<rparr>"

subsection \<open>\<open>IMU::init\<close>\<close>

text \<open>
  What \<open>IMU::init\<close> does to the I2C side: the pins and the clock given to \<open>Wire\<close>,
  whether \<open>imu.initialize()\<close> has run, and how many times \<open>imu.testConnection()\<close> has
  been called. The sensor is the sequence of its answers: \<open>acks k\<close> is the answer to call
  number \<open>k\<close>.
\<close>

record i2c =
  wire_pins :: "(nat \<times> nat) option"
  wire_clock :: nat
  polls :: nat
  initialized :: bool

text \<open>
  \<open>while (!imu.testConnection());\<close> from call number \<open>k\<close> on. The loop has no bound and
  no exit other than a positive answer, so the function is partial: \<open>None\<close> is the loop
  that never ends, \<open>Some n\<close> the number of calls made when it ends.
\<close>

partial_function (option) wait_connection :: "(nat \<Rightarrow> bool) \<Rightarrow> nat \<Rightarrow> nat option" where
  "wait_connection acks k = (if acks k then Some (Suc k) else wait_connection acks (Suc k))"

text \<open>
  \<open>IMU::init\<close>. The pin numbers \<open>IMU_I2C_SDA\<close> and \<open>IMU_I2C_SCL\<close> are macros of \<open>imu.h\<close>
  and are parameters here. The function returns nothing to its caller; \<open>None\<close> stands for
  not returning at all.
\<close>

definition IMU_init :: "nat \<Rightarrow> nat \<Rightarrow> (nat \<Rightarrow> bool) \<Rightarrow> i2c \<Rightarrow> i2c option" where
  "IMU_init sda scl acks b =
     (let b1 = b\<lparr>wire_pins := Some (sda, scl)\<rparr>;
          b2 = b1\<lparr>wire_clock := 400000\<rparr>
      in case wait_connection acks (polls b2) of
           None \<Rightarrow> None
         | Some n \<Rightarrow> Some (b2\<lparr>polls := n, initialized := True\<rparr>))"

text \<open>A sensor that never acknowledges, one that acknowledges from the fourth call on, and the bus before \<open>init\<close>.\<close>

definition silent_sensor :: "nat \<Rightarrow> bool" where
  "silent_sensor k = False"

definition late_sensor :: "nat \<Rightarrow> bool" where
  "late_sensor k = (3 \<le> k)"

definition bus0 :: i2c where
  "bus0 = \<lparr>wire_pins = None, wire_clock = 0, polls = 0, initialized = False\<rparr>"

subsection \<open>\<open>SdCard::readBinFromSd\<close>\<close>


datatype io_error = BufferOverrun

text \<open>\<open>file.read(bufPtr, toRead)\<close> stores the bytes read at the offset of \<open>bufPtr\<close> in \<open>buf\<close>.\<close>

definition write_at :: "nat \<Rightarrow> 8 word list \<Rightarrow> 8 word list \<Rightarrow> io_error + 8 word list" where
  "write_at off bytes dst =
     (if off + length bytes \<le> length dst
      then Inr (take off dst @ bytes @ drop (off + length bytes) dst)
      else Inl BufferOverrun)"





subsection \<open>Backlight and LED brightness\<close>

text \<open>
  Modelled from the spec: \<open>constrain\<close> is a macro of the Arduino core, which is not among
  the sources; the spec says that out-of-range input is clamped, not rejected. The macro
  is \<open>((amt)<(low)?(low):((amt)>(high)?(high):(amt)))\<close>.

  The \<open>float\<close> duty is a \<open>real\<close> here. The two comparisons of \<open>constrain\<close> are exact on
  floats as on reals; the products and differences that follow are rounded on the device
  and exact here, so for a duty inside the range the value written can differ by one from
  the device's. For a duty outside the range the two agree.
\<close>

definition constrain :: "real \<Rightarrow> real \<Rightarrow> real \<Rightarrow> real" where
  "constrain amt low high = (if amt < low then low else if amt > high then high else amt)"

text \<open>The conversion of a \<open>float\<close> to an integer type drops the fraction.\<close>

definition to_int :: "real \<Rightarrow> int" where
  "to_int x = (if 0 \<le> x then \<lfloor>x\<rfloor> else \<lceil>x\<rceil>)"

text \<open>One LED colour, \<open>CRGB(r, g, b)\<close>: the three \<open>int\<close> arguments become \<open>uint8_t\<close>.\<close>

record crgb =
  red :: "8 word"
  green :: "8 word"
  blue :: "8 word"

definition CRGB :: "int \<Rightarrow> int \<Rightarrow> int \<Rightarrow> crgb" where
  "CRGB r g b = \<lparr>red = word_of_int r, green = word_of_int g, blue = word_of_int b\<rparr>"

text \<open>
  The outputs: the duty register of the backlight's PWM channel, the global brightness of
  \<open>FastLED\<close>, the array \<open>color_buffers\<close>, and what the last \<open>FastLED.show()\<close> sent to the
  LEDs (the brightness and the colours at that moment).
\<close>

record outputs =
  backlight_pwm :: "32 word"
  led_brightness :: "8 word"
  color_buffers :: "crgb list"
  leds_shown :: "8 word \<times> crgb list"

definition ledcWrite :: "int \<Rightarrow> outputs \<Rightarrow> outputs" where
  "ledcWrite duty s = s\<lparr>backlight_pwm := word_of_int duty\<rparr>"

definition FastLED_show :: "outputs \<Rightarrow> outputs" where
  "FastLED_show s = s\<lparr>leds_shown := (led_brightness s, color_buffers s)\<rparr>"

text \<open>\<open>Display::setBackLight\<close>.\<close>

definition setBackLight :: "real \<Rightarrow> outputs \<Rightarrow> outputs" where
  "setBackLight duty s =
     (let duty1 = constrain duty 0 1;
          duty2 = 1 - duty1
      in ledcWrite (to_int (duty2 * 255)) s)"

text \<open>\<open>Pixel::setBrightness\<close>.\<close>

definition setBrightness :: "real \<Rightarrow> outputs \<Rightarrow> outputs" where
  "setBrightness duty s =
     (let duty1 = constrain duty 0 1;
          s1 = s\<lparr>led_brightness := word_of_int (to_int (255 * duty1))\<rparr>
      in FastLED_show s1)"

subsection \<open>\<open>Pixel::setRGB\<close>\<close>

text \<open>
  Modelled from the spec: \<open>RGB_LED_NUM\<close>, the length of \<open>color_buffers\<close>, is a macro of
  \<open>rgb_led.h\<close>, which is not among the sources; the device has 2 LEDs.
\<close>

definition RGB_LED_NUM :: nat where
  "RGB_LED_NUM = 2"

datatype mem_error = OutOfBounds

text \<open>
  \<open>Pixel::setRGB\<close> assigns \<open>color_buffers[id]\<close> without looking at \<open>id\<close>. The model makes
  the indexing total: an \<open>id\<close> inside the array is the assignment followed by
  \<open>FastLED.show()\<close>, an \<open>id\<close> outside it is the error \<open>OutOfBounds\<close>. The parameter
  \<open>id\<close> is \<open>led_id\<close> here.
\<close>

definition setRGB :: "int \<Rightarrow> int \<Rightarrow> int \<Rightarrow> int \<Rightarrow> outputs \<Rightarrow> mem_error + outputs" where
  "setRGB led_id r g b s =
     (if 0 \<le> led_id \<and> led_id < int (length (color_buffers s))
      then Inr (FastLED_show (s\<lparr>color_buffers := (color_buffers s)[nat led_id := CRGB r g b]\<rparr>))
      else Inl OutOfBounds)"

text \<open>
  The chain of \<open>setup\<close>: \<open>rgb.setBrightness(0.1).setRGB(0, 0, 122, 204).setRGB(1, 0, 122, 204)\<close>.
\<close>

definition setup_leds :: "outputs \<Rightarrow> mem_error + outputs" where
  "setup_leds s =
     (case setRGB 0 0 122 204 (setBrightness (1 / 10) s) of
        Inl e \<Rightarrow> Inl e
      | Inr s1 \<Rightarrow> setRGB 1 0 122 204 s1)"

text \<open>The outputs after \<open>Pixel::init\<close>: \<open>RGB_LED_NUM\<close> dark LEDs at brightness 200.\<close>

definition outputs0 :: outputs where
  "outputs0 = \<lparr>backlight_pwm = 0, led_brightness = 200,
      color_buffers = replicate RGB_LED_NUM (CRGB 0 0 0),
      leds_shown = (0, [])\<rparr>"

subsection \<open>Concrete inputs for the gesture logic\<close>

text \<open>
  A call of \<open>update\<close> that reads the lateral acceleration \<open>v\<close> with every other axis at
  0, at the time \<open>now\<close>; and the state after start-up with \<open>flag\<close> set to \<open>f\<close>.
\<close>

definition sample_ay :: "16 word \<Rightarrow> 32 word \<Rightarrow> tick" where
  "sample_ay v now = \<lparr>s_ax = 0, s_ay = v, s_az = 0, s_gx = 0, s_gy = 0, s_gz = 0,
      millis_gate = now, millis_stamp = now\<rparr>"

definition at_rest :: "int \<Rightarrow> ('w::len) state" where
  "at_rest f = \<lparr>encoder_diff = 0, encoder_state = LV_INDEV_STATE_REL,
      ax = 0, ay = 0, az = 0, gx = 0, gy = 0, gz = 0, flag = f, last_update_time = 0\<rparr>"

subsection \<open>\<open>loop\<close>\<close>

text \<open>
  What \<open>loop\<close> can reach: the objects of LVGL (\<open>gui\<close>, of a type left open), the state
  of the gesture input, and the two globals of the main unit, \<open>frame_id\<close> (an \<open>int\<close>,
  initially 0) and \<open>buf\<close> (100 characters, initially the empty string).
\<close>

record (overloaded) ('g, 'w) firmware =
  gui :: 'g
  input :: "'w state"
  frame_id :: "32 word"
  buf :: string

text \<open>
  \<open>loop\<close> as it is compiled: \<open>screen.routine()\<close>, which is \<open>lv_task_handler()\<close>;
  \<open>mpu.update(200)\<close>; and a line on the serial port, which is not modelled. The lines
  under the heading of the animation playback are comments and no part of the function.
  LVGL's \<open>lv_task_handler\<close> is a parameter: it works on LVGL's objects and, through the
  registered callback \<open>encoder_read\<close>, on the encoder globals; \<open>frame_id\<close> and \<open>buf\<close>
  are not known to it.
\<close>

definition loop :: "('g \<times> 'w state \<Rightarrow> 'g \<times> 'w state) \<Rightarrow> tick \<Rightarrow> ('g, 'w::len) firmware \<Rightarrow> ('g, 'w) firmware" where
  "loop lv_task_handler t fw =
     (let (g, s) = lv_task_handler (gui fw, input fw);
          fw1 = fw\<lparr>gui := g, input := s\<rparr>
      in fw1\<lparr>input := update 200 t (input fw1)\<rparr>)"


text \<open>
  An LVGL with nothing to do, and the firmware at start-up with the counter at \<open>i\<close>
  (\<open>i = 0\<close> is what \<open>setup\<close> leaves).
\<close>

definition lv_idle :: "unit \<times> 'w state \<Rightarrow> unit \<times> 'w state" where
  "lv_idle p = p"

definition firmware_at :: "32 word \<Rightarrow> (unit, 'w::len) firmware" where
  "firmware_at i = \<lparr>gui = (), input = at_rest 0, frame_id = i, buf = []\<rparr>"

section \<open>Theorems\<close>

subsection \<open>One call of \<open>update\<close>\<close>

text \<open>
  A call that passes the gate, written as one record update of the state after
  \<open>getMotion6\<close>; a call that does not pass it only stores the sample.
\<close>

lemma gate_getMotion6: "last_update_time (getMotion6 t s) = last_update_time s"
  by (simp add: getMotion6_def)

lemma update_closed:
  "gate iv t s \<Longrightarrow> update iv t s =
     (getMotion6 t s)\<lparr>
        encoder_diff := (if 3000 < sint (s_ay t) \<and> flag s \<noteq> 0 then encoder_diff s - 1
                        else if sint (s_ay t) < - 3000 \<and> flag s \<noteq> 0 then encoder_diff s + 1
                        else encoder_diff s),
        flag := (if (3000 < sint (s_ay t) \<or> sint (s_ay t) < - 3000) \<and> flag s \<noteq> 0 then 0 else 1),
        encoder_state := (if 10000 < sint (s_ax t) then LV_INDEV_STATE_PR else LV_INDEV_STATE_REL),
        last_update_time := millis_stamp t\<rparr>"
  by (simp add: update_def gate_def getMotion6_def Let_def)

lemma update_gated:
  "\<not> gate iv t s \<Longrightarrow> update iv t s = getMotion6 t s"
  by (simp add: update_def gate_def getMotion6_def Let_def)

lemma update_diff:
  "gate iv t s \<Longrightarrow> encoder_diff (update iv t s) =
      (if 3000 < sint (s_ay t) \<and> flag s \<noteq> 0 then encoder_diff s - 1
       else if sint (s_ay t) < - 3000 \<and> flag s \<noteq> 0 then encoder_diff s + 1
       else encoder_diff s)"
  by (simp add: update_closed getMotion6_def)

lemma update_flag:
  "gate iv t s \<Longrightarrow> flag (update iv t s) =
      (if (3000 < sint (s_ay t) \<or> sint (s_ay t) < - 3000) \<and> flag s \<noteq> 0 then 0 else 1)"
  by (simp add: update_closed getMotion6_def)

lemma run_append: "run iv (ts @ us) s = run iv us (run iv ts s)"
  by (induction ts arbitrary: s) simp_all

lemma all_pass_append:
  "all_pass iv (ts @ us) s \<longleftrightarrow> all_pass iv ts s \<and> all_pass iv us (run iv ts s)"
  by (induction ts arbitrary: s) simp_all

lemma hold_above:
  "all_pass iv ts s \<Longrightarrow> \<forall>t\<in>set ts. 3000 < sint (s_ay t) \<Longrightarrow>
     encoder_diff (run iv ts s)
       = encoder_diff s - of_nat (if flag s \<noteq> 0 then (length ts + 1) div 2 else length ts div 2)"
proof (induction ts arbitrary: s)
  case Nil
  then show ?case by simp
next
  case (Cons t ts)
  from Cons.prems have g: "gate iv t s" and rest: "all_pass iv ts (update iv t s)"
    and above: "3000 < sint (s_ay t)" and above': "\<forall>t\<in>set ts. 3000 < sint (s_ay t)"
    by simp_all
  have ih: "encoder_diff (run iv ts (update iv t s))
       = encoder_diff (update iv t s)
         - of_nat (if flag (update iv t s) \<noteq> 0 then (length ts + 1) div 2 else length ts div 2)"
    using Cons.IH [OF rest above'] .
  show ?case
  proof (cases "flag s \<noteq> 0")
    case True
    with g above have "flag (update iv t s) = 0" "encoder_diff (update iv t s) = encoder_diff s - 1"
      by (simp_all add: update_flag update_diff)
    with ih True show ?thesis by simp
  next
    case False
    with g above have "flag (update iv t s) = 1" "encoder_diff (update iv t s) = encoder_diff s"
      by (simp_all add: update_flag update_diff)
    with ih False show ?thesis by simp
  qed
qed

lemma hold_below:
  "all_pass iv ts s \<Longrightarrow> \<forall>t\<in>set ts. sint (s_ay t) < - 3000 \<Longrightarrow>
     encoder_diff (run iv ts s)
       = encoder_diff s + of_nat (if flag s \<noteq> 0 then (length ts + 1) div 2 else length ts div 2)"
proof (induction ts arbitrary: s)
  case Nil
  then show ?case by simp
next
  case (Cons t ts)
  from Cons.prems have g: "gate iv t s" and rest: "all_pass iv ts (update iv t s)"
    and below: "sint (s_ay t) < - 3000" and below': "\<forall>t\<in>set ts. sint (s_ay t) < - 3000"
    by simp_all
  have ih: "encoder_diff (run iv ts (update iv t s))
       = encoder_diff (update iv t s)
         + of_nat (if flag (update iv t s) \<noteq> 0 then (length ts + 1) div 2 else length ts div 2)"
    using Cons.IH [OF rest below'] .
  show ?case
  proof (cases "flag s \<noteq> 0")
    case True
    with g below have "flag (update iv t s) = 0" "encoder_diff (update iv t s) = encoder_diff s + 1"
      by (simp_all add: update_flag update_diff)
    with ih True show ?thesis by simp
  next
    case False
    with g below have "flag (update iv t s) = 1" "encoder_diff (update iv t s) = encoder_diff s"
      by (simp_all add: update_flag update_diff)
    with ih False show ?thesis by simp
  qed
qed

lemma neutral_step:
  "gate iv u s \<Longrightarrow> - 3000 \<le> sint (s_ay u) \<Longrightarrow> sint (s_ay u) \<le> 3000 \<Longrightarrow>
     encoder_diff (update iv u s) = encoder_diff s \<and> flag (update iv u s) = 1"
  by (simp add: update_flag update_diff)

lemma update_delta:
  "gate iv t s \<Longrightarrow> encoder_diff (update iv t s) - encoder_diff s =
      (if 3000 < sint (s_ay t) \<and> flag s \<noteq> 0 then - 1
       else if sint (s_ay t) < - 3000 \<and> flag s \<noteq> 0 then 1
       else 0)"
  by (simp add: update_diff)

lemma map_eq_six:
  "map f ts = [a, b, c, d, e, g] \<Longrightarrow>
     \<exists>t1 t2 t3 t4 t5 t6. ts = [t1, t2, t3, t4, t5, t6]
        \<and> f t1 = a \<and> f t2 = b \<and> f t3 = c \<and> f t4 = d \<and> f t5 = e \<and> f t6 = g"
  by (auto simp: map_eq_Cons_conv)

subsection \<open>Rotation events\<close>

text \<open>
  C1. Start armed, make every call pass the gate, keep \<open>ay\<close> above 3000 for the calls
  \<open>ts\<close> and bring it back into \<open>[-3000, 3000]\<close> with the call \<open>u\<close>. The third branch of
  \<open>update\<close> sets \<open>flag\<close> to 1 on every call that does not fire, also while \<open>ay\<close> is still
  beyond the threshold, so the calls above the threshold fire alternately:
  \<open>encoder_diff\<close> goes down by \<open>(length ts + 1) div 2\<close>, which is one event for a hold of
  one or two samples. Below \<open>-3000\<close> it goes up by as much. After the neutral call the
  flag is 1; and after any call that passes the gate the flag is 0 exactly when the
  call fired.
\<close>

theorem rotation_every_other_sample:
  assumes armed: "flag s \<noteq> 0"
    and pass: "all_pass iv (ts @ [u]) s"
    and neutral: "- 3000 \<le> sint (s_ay u)" "sint (s_ay u) \<le> 3000"
  shows "((\<forall>t\<in>set ts. 3000 < sint (s_ay t)) \<longrightarrow>
           encoder_diff (run iv (ts @ [u]) s) = encoder_diff s - of_nat ((length ts + 1) div 2))
       \<and> ((\<forall>t\<in>set ts. sint (s_ay t) < - 3000) \<longrightarrow>
           encoder_diff (run iv (ts @ [u]) s) = encoder_diff s + of_nat ((length ts + 1) div 2))
       \<and> flag (run iv (ts @ [u]) s) = 1
       \<and> (gate iv' t' s' \<longrightarrow>
           flag (update iv' t' s')
             = (if (3000 < sint (s_ay t') \<or> sint (s_ay t') < - 3000) \<and> flag s' \<noteq> 0 then 0 else 1))"
proof -
  from pass have p1: "all_pass iv ts s" and p2: "gate iv u (run iv ts s)"
    by (simp_all add: all_pass_append)
  have last: "encoder_diff (run iv (ts @ [u]) s) = encoder_diff (run iv ts s)"
    "flag (run iv (ts @ [u]) s) = 1"
    using neutral_step [OF p2 neutral] by (simp_all add: run_append)
  have up: "(\<forall>t\<in>set ts. 3000 < sint (s_ay t)) \<longrightarrow>
           encoder_diff (run iv (ts @ [u]) s) = encoder_diff s - of_nat ((length ts + 1) div 2)"
    using hold_above [OF p1] armed last(1) by simp
  have down: "(\<forall>t\<in>set ts. sint (s_ay t) < - 3000) \<longrightarrow>
           encoder_diff (run iv (ts @ [u]) s) = encoder_diff s + of_nat ((length ts + 1) div 2)"
    using hold_below [OF p1] armed last(1) by simp
  have rearm: "gate iv' t' s' \<longrightarrow>
           flag (update iv' t' s')
             = (if (3000 < sint (s_ay t') \<or> sint (s_ay t') < - 3000) \<and> flag s' \<noteq> 0 then 0 else 1)"
    by (simp add: update_flag)
  from up down last(2) rearm show ?thesis by blast
qed

text \<open>
  Holds of three samples fire twice in either direction, a hold of one sample fires once,
  and an unarmed call above the threshold re-arms.
\<close>

theorem rotation_every_other_sample_witness:
  "encoder_diff (run 200 ([sample_ay 3500 1000, sample_ay 3600 2000, sample_ay 3700 3000] @ [sample_ay 0 4000])
      (at_rest 1 :: 16 state)) = - 2
   \<and> encoder_diff (run 200 ([sample_ay 3500 1000] @ [sample_ay 0 4000]) (at_rest 1 :: 16 state)) = - 1
   \<and> encoder_diff (run 200 ([sample_ay (- 3500) 1000, sample_ay (- 3600) 2000, sample_ay (- 3700) 3000] @ [sample_ay 0 4000])
      (at_rest 1 :: 16 state)) = 2
   \<and> flag (update 200 (sample_ay 3600 2000) ((at_rest 0 :: 16 state)\<lparr>last_update_time := 1000\<rparr>)) = 1"
proof -
  have a: "flag (at_rest 1 :: 16 state) \<noteq> 0" by (simp add: at_rest_def)
  have n: "- 3000 \<le> sint (s_ay (sample_ay 0 4000))" "sint (s_ay (sample_ay 0 4000)) \<le> 3000"
    by (simp_all add: sample_ay_def)
  have p3: "all_pass 200 ([sample_ay 3500 1000, sample_ay 3600 2000, sample_ay 3700 3000] @ [sample_ay 0 4000])
      (at_rest 1 :: 16 state)"
    by (simp add: gate_def update_def getMotion6_def sample_ay_def at_rest_def)
  have p1: "all_pass 200 ([sample_ay 3500 1000] @ [sample_ay 0 4000]) (at_rest 1 :: 16 state)"
    by (simp add: gate_def update_def getMotion6_def sample_ay_def at_rest_def)
  have q3: "all_pass 200 ([sample_ay (- 3500) 1000, sample_ay (- 3600) 2000, sample_ay (- 3700) 3000] @ [sample_ay 0 4000])
      (at_rest 1 :: 16 state)"
    by (simp add: gate_def update_def getMotion6_def sample_ay_def at_rest_def)
  have g: "gate 200 (sample_ay 3600 2000) ((at_rest 0 :: 16 state)\<lparr>last_update_time := 1000\<rparr>)"
    by (simp add: gate_def sample_ay_def at_rest_def)
  show ?thesis
    using rotation_every_other_sample [OF a p3 n, of 200 "sample_ay 3600 2000" "(at_rest 0 :: 16 state)\<lparr>last_update_time := 1000\<rparr>"]
      rotation_every_other_sample [OF a p1 n, of 200 "sample_ay 3600 2000" "(at_rest 0 :: 16 state)\<lparr>last_update_time := 1000\<rparr>"]
      rotation_every_other_sample [OF a q3 n, of 200 "sample_ay 3600 2000" "(at_rest 0 :: 16 state)\<lparr>last_update_time := 1000\<rparr>"]
      g
    by (simp add: sample_ay_def at_rest_def)
qed

text \<open>
  One event per crossing fails for a hold of three samples: armed at the start, \<open>ay\<close> is
  3500 for three calls and then 0; the first and the third call both decrement
  \<open>encoder_diff\<close>, and after the second call \<open>flag\<close> is 1 again although \<open>ay\<close> is
  still 3500.
\<close>

theorem rotation_once_per_crossing_counterexample:
  "flag (at_rest 1 :: 16 state) \<noteq> 0
   \<and> all_pass 200 [sample_ay 3500 1000, sample_ay 3500 2000, sample_ay 3500 3000, sample_ay 0 4000] (at_rest 1 :: 16 state)
   \<and> deltas 200 [sample_ay 3500 1000, sample_ay 3500 2000, sample_ay 3500 3000, sample_ay 0 4000] (at_rest 1 :: 16 state)
       = [- 1, 0, - 1, 0]
   \<and> encoder_diff (run 200 [sample_ay 3500 1000, sample_ay 3500 2000, sample_ay 3500 3000, sample_ay 0 4000] (at_rest 1 :: 16 state))
       = - 2
   \<and> sint (ay (run 200 [sample_ay 3500 1000, sample_ay 3500 2000] (at_rest 1 :: 16 state))) > 3000
   \<and> flag (run 200 [sample_ay 3500 1000, sample_ay 3500 2000] (at_rest 1 :: 16 state)) = 1"
  by (simp add: gate_def update_def getMotion6_def sample_ay_def at_rest_def)

text \<open>
  C2. Armed at the start, with the six samples \<open>ay = 0, 3500, 3600, 0, -3700, 0\<close> and
  every call passing the gate (at any interval, so at the 200 ms of \<open>loop\<close>), the
  changes of \<open>encoder_diff\<close> are \<open>0, -1, 0, 0, 1, 0\<close>: two events in six calls.
\<close>

theorem six_sample_scenario:
  assumes armed: "flag s \<noteq> 0"
    and samples: "map s_ay ts = [0, 3500, 3600, 0, - 3700, 0]"
    and pass: "all_pass iv ts s"
  shows "deltas iv ts s = [0, - 1, 0, 0, 1, 0]
       \<and> length (filter (\<lambda>d. d \<noteq> 0) (deltas iv ts s)) = 2"
proof -
  from map_eq_six [OF samples] obtain t1 t2 t3 t4 t5 t6 where
    ts: "ts = [t1, t2, t3, t4, t5, t6]"
    and v: "s_ay t1 = 0" "s_ay t2 = 3500" "s_ay t3 = 3600" "s_ay t4 = 0" "s_ay t5 = - 3700" "s_ay t6 = 0"
    by blast
  define s1 where "s1 = update iv t1 s"
  define s2 where "s2 = update iv t2 s1"
  define s3 where "s3 = update iv t3 s2"
  define s4 where "s4 = update iv t4 s3"
  define s5 where "s5 = update iv t5 s4"
  from pass have g: "gate iv t1 s" "gate iv t2 s1" "gate iv t3 s2" "gate iv t4 s3" "gate iv t5 s4" "gate iv t6 s5"
    by (simp_all add: ts s1_def s2_def s3_def s4_def s5_def)
  have f1: "flag s1 = 1" using g(1) v(1) by (simp add: s1_def update_flag)
  have f2: "flag s2 = 0" using g(2) v(2) f1 by (simp add: s2_def update_flag)
  have f3: "flag s3 = 1" using g(3) v(3) f2 by (simp add: s3_def update_flag)
  have f4: "flag s4 = 1" using g(4) v(4) f3 by (simp add: s4_def update_flag)
  have f5: "flag s5 = 0" using g(5) v(5) f4 by (simp add: s5_def update_flag)
  have d1: "encoder_diff s1 - encoder_diff s = 0"
    using g(1) v(1) by (simp add: s1_def update_delta)
  have d2: "encoder_diff s2 - encoder_diff s1 = - 1"
    using g(2) v(2) f1 by (simp add: s2_def update_delta)
  have d3: "encoder_diff s3 - encoder_diff s2 = 0"
    using g(3) v(3) f2 by (simp add: s3_def update_delta)
  have d4: "encoder_diff s4 - encoder_diff s3 = 0"
    using g(4) v(4) f3 by (simp add: s4_def update_delta)
  have d5: "encoder_diff s5 - encoder_diff s4 = 1"
    using g(5) v(5) f4 by (simp add: s5_def update_delta)
  have d6: "encoder_diff (update iv t6 s5) - encoder_diff s5 = 0"
    using g(6) v(6) f5 by (simp add: update_delta)
  have "deltas iv ts s = [encoder_diff s1 - encoder_diff s, encoder_diff s2 - encoder_diff s1,
      encoder_diff s3 - encoder_diff s2, encoder_diff s4 - encoder_diff s3,
      encoder_diff s5 - encoder_diff s4, encoder_diff (update iv t6 s5) - encoder_diff s5]"
    by (simp add: ts s1_def s2_def s3_def s4_def s5_def)
  then have "deltas iv ts s = [0, - 1, 0, 0, 1, 0]"
    by (simp only: d1 d2 d3 d4 d5 d6)
  then show ?thesis by simp
qed

text \<open>
  The scenario at the interval of \<open>loop\<close>, one call per second.
\<close>

theorem six_sample_scenario_witness:
  "deltas 200 [sample_ay 0 1000, sample_ay 3500 2000, sample_ay 3600 3000, sample_ay 0 4000,
       sample_ay (- 3700) 5000, sample_ay 0 6000] (at_rest 1 :: 16 state) = [0, - 1, 0, 0, 1, 0]
   \<and> length (filter (\<lambda>d. d \<noteq> 0) (deltas 200 [sample_ay 0 1000, sample_ay 3500 2000, sample_ay 3600 3000,
       sample_ay 0 4000, sample_ay (- 3700) 5000, sample_ay 0 6000] (at_rest 1 :: 16 state))) = 2"
proof -
  have a: "flag (at_rest 1 :: 16 state) \<noteq> 0" by (simp add: at_rest_def)
  have m: "map s_ay [sample_ay 0 1000, sample_ay 3500 2000, sample_ay 3600 3000, sample_ay 0 4000,
       sample_ay (- 3700) 5000, sample_ay 0 6000] = [0, 3500, 3600, 0, - 3700, 0]"
    by (simp add: sample_ay_def)
  have p: "all_pass 200 [sample_ay 0 1000, sample_ay 3500 2000, sample_ay 3600 3000, sample_ay 0 4000,
       sample_ay (- 3700) 5000, sample_ay 0 6000] (at_rest 1 :: 16 state)"
    by (simp add: gate_def update_def getMotion6_def sample_ay_def at_rest_def)
  show ?thesis by (rule six_sample_scenario [OF a m p])
qed

subsection \<open>The gate\<close>

text \<open>
  A call that does not pass the gate leaves \<open>encoder_diff\<close>, \<open>encoder_state\<close>, \<open>flag\<close>
  and \<open>last_update_time\<close> as they were. The six sample fields are overwritten with the
  new reading, since \<open>getMotion6\<close> is called before the gate.
\<close>

lemma gated_call_keeps_gesture_state:
  assumes "\<not> gate iv t s"
  shows "update iv t s = s\<lparr>ax := s_ax t, ay := s_ay t, az := s_az t, gx := s_gx t, gy := s_gy t, gz := s_gz t\<rparr>
       \<and> encoder_diff (update iv t s) = encoder_diff s
       \<and> encoder_state (update iv t s) = encoder_state s
       \<and> flag (update iv t s) = flag s
       \<and> last_update_time (update iv t s) = last_update_time s"
  using assms by (simp add: update_gated getMotion6_def)

text \<open>
  C4. A call that arrives before the interval has elapsed is to leave the whole state
  as it is, the stored sample included; the comment at the call in \<open>loop\<close> says that
  the data of the IMU are updated once every 200 ms, so that the sensor is not read too
  often. The sensor is read on every call: 100 ms after the last accepted call, at the
  interval 200, the gate is closed and \<open>ay\<close>, which was 0, is 3500 after the call, also
  when the call is the one that \<open>loop\<close> makes.
\<close>

theorem gated_call_overwrites_sample:
  "millis_gate (sample_ay 3500 100) - last_update_time (at_rest 1 :: 16 state) \<le> 200
   \<and> update 200 (sample_ay 3500 100) (at_rest 1 :: 16 state) \<noteq> at_rest 1
   \<and> ay (at_rest 1 :: 16 state) = 0
   \<and> ay (update 200 (sample_ay 3500 100) (at_rest 1 :: 16 state)) = 3500
   \<and> ay (input (loop lv_idle (sample_ay 3500 100) ((firmware_at 0 :: (unit, 16) firmware)\<lparr>input := at_rest 1\<rparr>))) = 3500"
  by (simp add: update_def getMotion6_def sample_ay_def at_rest_def loop_def lv_idle_def firmware_at_def)

subsection \<open>Press detection\<close>

text \<open>
  C9. After every call that passes the gate \<open>encoder_state\<close> is \<open>LV_INDEV_STATE_PR\<close>
  if the \<open>ax\<close> just read is above 10000 and \<open>LV_INDEV_STATE_REL\<close> otherwise, whatever
  \<open>flag\<close>, \<open>encoder_diff\<close> and the previous \<open>encoder_state\<close> were.
\<close>

theorem press_is_level_triggered:
  assumes "gate iv t s"
  shows "encoder_state (update iv t s)
           = (if 10000 < sint (s_ax t) then LV_INDEV_STATE_PR else LV_INDEV_STATE_REL)
       \<and> encoder_state (update iv t (s\<lparr>flag := f, encoder_diff := d, encoder_state := b\<rparr>))
           = encoder_state (update iv t s)"
proof -
  from assms have "gate iv t (s\<lparr>flag := f, encoder_diff := d, encoder_state := b\<rparr>)"
    by (simp add: gate_def)
  with assms show ?thesis by (simp add: update_closed getMotion6_def)
qed

text \<open>
  Just above the threshold the button is pressed; at the threshold it is released,
  even if it was pressed before.
\<close>

theorem press_is_level_triggered_witness:
  "encoder_state (update 200 ((sample_ay 3500 1000)\<lparr>s_ax := 10001\<rparr>) (at_rest 0 :: 16 state)) = LV_INDEV_STATE_PR
   \<and> encoder_state (update 200 ((sample_ay 3500 1000)\<lparr>s_ax := 10000\<rparr>)
        ((at_rest 1 :: 16 state)\<lparr>encoder_state := LV_INDEV_STATE_PR\<rparr>)) = LV_INDEV_STATE_REL"
proof -
  have g1: "gate 200 ((sample_ay 3500 1000)\<lparr>s_ax := 10001\<rparr>) (at_rest 0 :: 16 state)"
    by (simp add: gate_def sample_ay_def at_rest_def)
  have g2: "gate 200 ((sample_ay 3500 1000)\<lparr>s_ax := 10000\<rparr>)
        ((at_rest 1 :: 16 state)\<lparr>encoder_state := LV_INDEV_STATE_PR\<rparr>)"
    by (simp add: gate_def sample_ay_def at_rest_def)
  from press_is_level_triggered [OF g1] press_is_level_triggered [OF g2]
  show ?thesis by (simp add: sample_ay_def)
qed

subsection \<open>Waiting for the sensor\<close>

text \<open>
  The loop of \<open>IMU::init\<close> ends exactly at the first positive answer at or after the
  call it starts with, and does not end if there is none.
\<close>

lemma wait_connection_Some:
  assumes "wait_connection acks k = Some n"
  shows "k < n \<and> acks (n - 1) \<and> (\<forall>j. k \<le> j \<and> j < n - 1 \<longrightarrow> \<not> acks j)"
  using assms
proof (induction rule: wait_connection.raw_induct [rotated 1, consumes 1])
  case (1 w acks k n)
  show ?case
  proof (cases "acks k")
    case True
    with "1.hyps" have "n = Suc k" by simp
    with True show ?thesis by auto
  next
    case False
    with "1.hyps" have "w acks (Suc k) = Some n" by simp
    from "1.IH" [OF this]
    have a: "Suc k < n" and b: "acks (n - 1)"
      and c: "\<forall>j. Suc k \<le> j \<and> j < n - 1 \<longrightarrow> \<not> acks j" by simp_all
    have "\<not> acks j" if "k \<le> j" "j < n - 1" for j
    proof (cases "j = k")
      case True
      with False show ?thesis by simp
    next
      case False
      with that have "Suc k \<le> j \<and> j < n - 1" by simp
      with c show ?thesis by blast
    qed
    with a b show ?thesis by simp
  qed
qed

lemma wait_connection_finds:
  "acks (k + d) \<Longrightarrow> \<exists>n. wait_connection acks k = Some n"
proof (induction d arbitrary: k)
  case 0
  then show ?case by (subst wait_connection.simps) simp
next
  case (Suc d)
  from Suc.prems have "acks (Suc k + d)" by simp
  from Suc.IH [OF this] obtain n where "wait_connection acks (Suc k) = Some n" by blast
  then show ?case by (subst wait_connection.simps) simp
qed

lemma wait_connection_None_iff:
  "wait_connection acks k = None \<longleftrightarrow> (\<forall>j\<ge>k. \<not> acks j)"
proof
  assume none: "wait_connection acks k = None"
  show "\<forall>j\<ge>k. \<not> acks j"
  proof (intro allI impI notI)
    fix j assume "k \<le> j" "acks j"
    then have "acks (k + (j - k))" by simp
    from wait_connection_finds [of acks k "j - k", OF this] none show False by simp
  qed
next
  assume never: "\<forall>j\<ge>k. \<not> acks j"
  show "wait_connection acks k = None"
  proof (cases "wait_connection acks k")
    case None
    then show ?thesis .
  next
    case (Some n)
    from wait_connection_Some [OF this] have "k < n" "acks (n - 1)" by simp_all
    then have "k \<le> n - 1" by simp
    with never \<open>acks (n - 1)\<close> show ?thesis by blast
  qed
qed

text \<open>
  C5. \<open>IMU::init\<close> has no failure result. It does not return as long as the sensor
  does not acknowledge: it returns if and only if some call of \<open>testConnection\<close> is
  answered, right after the first such call, with the bus configured and the sensor
  initialised.
\<close>

theorem init_waits_for_sensor:
  "(IMU_init sda scl acks b = None \<longleftrightarrow> (\<forall>j\<ge>polls b. \<not> acks j))
   \<and> (\<forall>b'. IMU_init sda scl acks b = Some b' \<longrightarrow>
         initialized b' \<and> polls b < polls b' \<and> acks (polls b' - 1)
         \<and> (\<forall>j. polls b \<le> j \<and> j < polls b' - 1 \<longrightarrow> \<not> acks j)
         \<and> wire_pins b' = Some (sda, scl) \<and> wire_clock b' = 400000)"
proof -
  have a: "IMU_init sda scl acks b = None \<longleftrightarrow> (\<forall>j\<ge>polls b. \<not> acks j)"
    using wait_connection_None_iff [of acks "polls b"]
    by (cases "wait_connection acks (polls b)") (simp_all add: IMU_init_def)
  have b: "initialized b' \<and> polls b < polls b' \<and> acks (polls b' - 1)
         \<and> (\<forall>j. polls b \<le> j \<and> j < polls b' - 1 \<longrightarrow> \<not> acks j)
         \<and> wire_pins b' = Some (sda, scl) \<and> wire_clock b' = 400000"
    if "IMU_init sda scl acks b = Some b'" for b'
  proof -
    from that obtain n where n: "wait_connection acks (polls b) = Some n"
      and b': "b' = b\<lparr>wire_pins := Some (sda, scl), wire_clock := 400000, polls := n, initialized := True\<rparr>"
      by (auto simp: IMU_init_def split: option.splits)
    from wait_connection_Some [OF n] b' show ?thesis by simp
  qed
  from a b show ?thesis by blast
qed

text \<open>
  A sensor that answers the fourth call: \<open>init\<close> returns after four calls.
\<close>

theorem init_waits_for_sensor_witness:
  "IMU_init 32 33 late_sensor bus0
     = Some \<lparr>wire_pins = Some (32, 33), wire_clock = 400000, polls = 4, initialized = True\<rparr>"
proof -
  have "wait_connection late_sensor 0 = Some 4"
    by (simp add: wait_connection.simps late_sensor_def)
  then have r: "IMU_init 32 33 late_sensor bus0
     = Some \<lparr>wire_pins = Some (32, 33), wire_clock = 400000, polls = 4, initialized = True\<rparr>"
    by (simp add: IMU_init_def bus0_def)
  from init_waits_for_sensor [of 32 33 late_sensor bus0] r show ?thesis by simp
qed

text \<open>
  A sensor that never acknowledges: \<open>init\<close> does not return, and so reports nothing.
\<close>

theorem init_blocks_counterexample:
  "IMU_init 32 33 silent_sensor bus0 = None"
proof -
  have "wait_connection silent_sensor (polls bus0) = None"
    by (simp add: wait_connection_None_iff silent_sensor_def)
  then show ?thesis by (simp add: IMU_init_def)
qed

subsection \<open>Reading the encoder\<close>

text \<open>
  A value that fits into 16 bits is the same after the conversion to \<open>enc_diff\<close>.
\<close>

lemma sint_scast_fits:
  fixes x :: "'w::len word"
  assumes "- 32768 \<le> sint x" and "sint x \<le> 32767"
  shows "sint (scast x :: 16 word) = sint x"
proof -
  from assms have "- (2 ^ 15) \<le> sint x" "sint x < 2 ^ 15" by simp_all
  then have "signed_take_bit 15 (sint x) = sint x"
    by (rule signed_take_bit_int_eq_self)
  then show ?thesis by (simp add: signed_scast_eq)
qed

text \<open>
  C3. \<open>encoder_read\<close> hands out \<open>encoder_diff\<close> converted to the 16 bits of
  \<open>enc_diff\<close>, which is the accumulated value itself whenever that lies between -32768 and
  32767, and the current \<open>encoder_state\<close>; it sets \<open>encoder_diff\<close> to 0 and changes nothing
  else. So a second read right after the first, with no \<open>update\<close> in between, hands out 0
  and the same button state as the first.
\<close>

theorem encoder_read_and_clear:
  "enc_diff (fst (fst (encoder_read d s))) = scast (encoder_diff s)
   \<and> (- 32768 \<le> sint (encoder_diff s) \<and> sint (encoder_diff s) \<le> 32767 \<longrightarrow>
        sint (enc_diff (fst (fst (encoder_read d s)))) = sint (encoder_diff s))
   \<and> indev_state (fst (fst (encoder_read d s))) = encoder_state s
   \<and> snd (encoder_read d s) = s\<lparr>encoder_diff := 0\<rparr>
   \<and> encoder_state (snd (encoder_read d s)) = encoder_state s
   \<and> enc_diff (fst (fst (encoder_read d' (snd (encoder_read d s))))) = 0
   \<and> indev_state (fst (fst (encoder_read d' (snd (encoder_read d s)))))
       = indev_state (fst (fst (encoder_read d s)))"
  by (simp add: encoder_read_def sint_scast_fits)

text \<open>
  With the \<open>int32_t\<close> counter at -3 the read hands out -3, and the next read 0.
\<close>

theorem encoder_read_and_clear_witness:
  "sint (enc_diff (fst (fst (encoder_read data0 ((at_rest 1 :: 32 state)\<lparr>encoder_diff := - 3\<rparr>))))) = - 3
   \<and> enc_diff (fst (fst (encoder_read data0 (snd (encoder_read data0 ((at_rest 1 :: 32 state)\<lparr>encoder_diff := - 3\<rparr>)))))) = 0"
proof -
  have r: "- 32768 \<le> sint (encoder_diff ((at_rest 1 :: 32 state)\<lparr>encoder_diff := - 3\<rparr>))"
    "sint (encoder_diff ((at_rest 1 :: 32 state)\<lparr>encoder_diff := - 3\<rparr>)) \<le> 32767"
    "sint (encoder_diff ((at_rest 1 :: 32 state)\<lparr>encoder_diff := - 3\<rparr>)) = - 3"
    by simp_all
  note t = encoder_read_and_clear [of data0 "(at_rest 1 :: 32 state)\<lparr>encoder_diff := - 3\<rparr>" data0]
  from t r(1,2)
  have "sint (enc_diff (fst (fst (encoder_read data0 ((at_rest 1 :: 32 state)\<lparr>encoder_diff := - 3\<rparr>)))))
      = sint (encoder_diff ((at_rest 1 :: 32 state)\<lparr>encoder_diff := - 3\<rparr>))"
    by blast
  with r(3) have a: "sint (enc_diff (fst (fst (encoder_read data0 ((at_rest 1 :: 32 state)\<lparr>encoder_diff := - 3\<rparr>))))) = - 3"
    by (simp only:)
  from t have b: "enc_diff (fst (fst (encoder_read data0 (snd (encoder_read data0 ((at_rest 1 :: 32 state)\<lparr>encoder_diff := - 3\<rparr>)))))) = 0"
    by blast
  from a b show ?thesis by (rule conjI)
qed

text \<open>
  With the \<open>int32_t\<close> counter at 70000 the read hands out 4464, not the accumulated
  value.
\<close>

theorem encoder_read_truncates_counterexample:
  "sint (encoder_diff ((at_rest 1 :: 32 state)\<lparr>encoder_diff := 70000\<rparr>)) = 70000
   \<and> sint (enc_diff (fst (fst (encoder_read data0 ((at_rest 1 :: 32 state)\<lparr>encoder_diff := 70000\<rparr>))))) = 4464"
  by (simp add: encoder_read_def signed_scast_eq)

subsection \<open>The main loop and the frames\<close>






text \<open>
  \<open>readBinFromSd\<close> copies a file that fits into the destination, whatever the
  number of chunks.
\<close>

lemma write_at_fits:
  "off + length bytes \<le> length dst \<Longrightarrow>
     write_at off bytes dst = Inr (take off dst @ bytes @ drop (off + length bytes) dst)"
  by (simp add: write_at_def)





subsection \<open>Brightness\<close>

text \<open>
  C8. A duty above 1 has the effect of the duty 1, and a duty below 0 that of the
  duty 0, on every output, for \<open>Display::setBackLight\<close> and for \<open>Pixel::setBrightness\<close>.
\<close>

theorem brightness_is_clamped:
  "(1 < d \<longrightarrow> setBackLight d s = setBackLight 1 s \<and> setBrightness d s = setBrightness 1 s)
   \<and> (d < 0 \<longrightarrow> setBackLight d s = setBackLight 0 s \<and> setBrightness d s = setBrightness 0 s)"
  by (simp add: setBackLight_def setBrightness_def constrain_def)

text \<open>
  The duties 1.5 and -0.2: the backlight register is 0 and 255 (the duty is inverted),
  the LED brightness 255 and 0.
\<close>

theorem brightness_is_clamped_witness:
  "setBackLight (3 / 2) outputs0 = setBackLight 1 outputs0
   \<and> setBrightness (3 / 2) outputs0 = setBrightness 1 outputs0
   \<and> setBackLight (- (1 / 5)) outputs0 = setBackLight 0 outputs0
   \<and> setBrightness (- (1 / 5)) outputs0 = setBrightness 0 outputs0
   \<and> backlight_pwm (setBackLight (3 / 2) outputs0) = 0
   \<and> backlight_pwm (setBackLight (- (1 / 5)) outputs0) = 255
   \<and> led_brightness (setBrightness (3 / 2) outputs0) = 255
   \<and> led_brightness (setBrightness (- (1 / 5)) outputs0) = 0"
proof -
  have v: "backlight_pwm (setBackLight 1 outputs0) = 0" "backlight_pwm (setBackLight 0 outputs0) = 255"
    "led_brightness (setBrightness 1 outputs0) = 255" "led_brightness (setBrightness 0 outputs0) = 0"
    by (simp_all add: setBackLight_def setBrightness_def constrain_def to_int_def ledcWrite_def
        FastLED_show_def)
  show ?thesis
    using brightness_is_clamped [of "3 / 2" outputs0] brightness_is_clamped [of "- (1 / 5)" outputs0] v
    by simp
qed

subsection \<open>The LED buffer\<close>

lemma color_buffers_setBrightness: "color_buffers (setBrightness d s) = color_buffers s"
  by (simp add: setBrightness_def FastLED_show_def Let_def)

lemma setRGB_in_range:
  "0 \<le> led_id \<Longrightarrow> led_id < int (length (color_buffers s)) \<Longrightarrow>
     \<exists>s'. setRGB led_id r g b s = Inr s' \<and> length (color_buffers s') = length (color_buffers s)"
  by (simp add: setRGB_def FastLED_show_def)

lemma setup_leds_in_range:
  assumes "length (color_buffers s) = RGB_LED_NUM"
  shows "\<exists>s'. setup_leds s = Inr s'"
proof -
  from assms have two: "length (color_buffers (setBrightness (1 / 10) s)) = 2"
    by (simp add: color_buffers_setBrightness RGB_LED_NUM_def)
  then obtain s1 where s1: "setRGB 0 0 122 204 (setBrightness (1 / 10) s) = Inr s1"
    and len: "length (color_buffers s1) = 2"
    using setRGB_in_range [of 0 "setBrightness (1 / 10) s" 0 122 204] by auto
  from len obtain s2 where "setRGB 1 0 122 204 s1 = Inr s2"
    using setRGB_in_range [of 1 s1 0 122 204] by auto
  with s1 show ?thesis by (simp add: setup_leds_def)
qed

text \<open>
  C10. \<open>Pixel::setRGB\<close> stays inside \<open>color_buffers\<close> exactly when
  \<open>0 \<le> id < length color_buffers\<close>; every other \<open>id\<close> reaches the out-of-bounds branch. An
  \<open>id\<close> in range changes that one element and nothing else of the array. The two calls
  of \<open>setup\<close>, with the ids 0 and 1, are in range for the \<open>RGB_LED_NUM = 2\<close> LEDs.
\<close>

theorem setRGB_needs_id_in_range:
  "((\<exists>s'. setRGB led_id r g b s = Inr s') \<longleftrightarrow> 0 \<le> led_id \<and> led_id < int (length (color_buffers s)))
   \<and> (setRGB led_id r g b s = Inl OutOfBounds \<longleftrightarrow> led_id < 0 \<or> int (length (color_buffers s)) \<le> led_id)
   \<and> (\<forall>s'. setRGB led_id r g b s = Inr s' \<longrightarrow>
         length (color_buffers s') = length (color_buffers s)
         \<and> color_buffers s' ! nat led_id = CRGB r g b
         \<and> (\<forall>j < length (color_buffers s). j \<noteq> nat led_id \<longrightarrow> color_buffers s' ! j = color_buffers s ! j))
   \<and> (length (color_buffers s) = RGB_LED_NUM \<longrightarrow> (\<exists>s'. setup_leds s = Inr s'))"
proof -
  have a: "(\<exists>s'. setRGB led_id r g b s = Inr s') \<longleftrightarrow> 0 \<le> led_id \<and> led_id < int (length (color_buffers s))"
    by (simp add: setRGB_def)
  have b: "setRGB led_id r g b s = Inl OutOfBounds \<longleftrightarrow> led_id < 0 \<or> int (length (color_buffers s)) \<le> led_id"
    by (auto simp: setRGB_def)
  have c: "\<forall>s'. setRGB led_id r g b s = Inr s' \<longrightarrow>
         length (color_buffers s') = length (color_buffers s)
         \<and> color_buffers s' ! nat led_id = CRGB r g b
         \<and> (\<forall>j < length (color_buffers s). j \<noteq> nat led_id \<longrightarrow> color_buffers s' ! j = color_buffers s ! j)"
    by (auto simp: setRGB_def FastLED_show_def split: if_splits)
  have d: "length (color_buffers s) = RGB_LED_NUM \<longrightarrow> (\<exists>s'. setup_leds s = Inr s')"
    by (simp add: setup_leds_in_range)
  from a b c d show ?thesis by blast
qed

text \<open>
  With two LEDs the ids 2 and -1 are out of bounds, the id 1 and the calls of \<open>setup\<close>
  are not.
\<close>

theorem setRGB_needs_id_in_range_witness:
  "setRGB 2 0 122 204 outputs0 = Inl OutOfBounds
   \<and> setRGB (- 1) 0 122 204 outputs0 = Inl OutOfBounds
   \<and> (\<exists>s'. setRGB 1 0 122 204 outputs0 = Inr s')
   \<and> (\<exists>s'. setup_leds outputs0 = Inr s')"
proof -
  have l: "length (color_buffers outputs0) = 2" "length (color_buffers outputs0) = RGB_LED_NUM"
    by (simp_all add: outputs0_def RGB_LED_NUM_def)
  show ?thesis
    using setRGB_needs_id_in_range [of 2 0 122 204 outputs0]
      setRGB_needs_id_in_range [of "- 1" 0 122 204 outputs0]
      setRGB_needs_id_in_range [of 1 0 122 204 outputs0] l
    by simp
qed

end
